theory Spec2Isabelle
  imports Main "HOL-Library.AList"
begin

section \<open>Python values, exceptions and dictionaries\<close>

text \<open>
  Property values of \<^verbatim>\<open>kalamar/item.py\<close> are Python objects. The module itself only ever
  produces \<^verbatim>\<open>None\<close> (the value of an absent key, the initial value of a storage property
  of a new item) and strings (the default \<^verbatim>\<open>''\<close> of \<^verbatim>\<open>_content\<close>, what a stream's
  \<^verbatim>\<open>read()\<close> returns); callers hand in either.
\<close>

datatype pyval = PNone | PStr string

text \<open>The exceptions the module raises itself or lets through.\<close>

datatype error =
    ParserNotAvailable string
  | KeyError string
  | TypeError
  | AttributeError
  | OpenerError string
  | HookError string

text \<open>\<^verbatim>\<open>len(x)\<close>: a string has a length, \<^verbatim>\<open>None\<close> has none.\<close>

fun py_len :: "pyval \<Rightarrow> error + nat" where
  "py_len PNone = Inl TypeError"
| "py_len (PStr s) = Inr (length s)"

text \<open>
  A \<^verbatim>\<open>dict\<close> is an association list with first-match lookup (\<open>map_of\<close>); assignment
  \<^verbatim>\<open>d[k] = v\<close> is \<open>AList.update\<close>, which replaces the entry of an existing key in place
  and appends a new key. The order of the list stands for the iteration order of the
  dictionary, which Python leaves unspecified; no result below depends on it.
\<close>

type_synonym ('k, 'v) dict = "('k \<times> 'v) list"

definition dict_keys :: "('k, 'v) dict \<Rightarrow> 'k list" where
  "dict_keys d = map fst d"

text \<open>\<^verbatim>\<open>d.update(other)\<close>, and \<^verbatim>\<open>dict(pairs)\<close> as the update of the empty dictionary.\<close>

definition dict_update :: "('k, 'v) dict \<Rightarrow> ('k, 'v) dict \<Rightarrow> ('k, 'v) dict" where
  "dict_update d other = foldl (\<lambda>acc kv. AList.update (fst kv) (snd kv) acc) d other"

definition dict_of :: "('k \<times> 'v) list \<Rightarrow> ('k, 'v) dict" where
  "dict_of pairs = dict_update [] pairs"

subsection \<open>The base class \<^verbatim>\<open>werkzeug.MultiDict\<close>\<close>

text \<open>
  \<^verbatim>\<open>ItemProperties\<close> inherits from werkzeug's \<^verbatim>\<open>MultiDict\<close> (imported in line 42), a
  \<^verbatim>\<open>dict\<close> whose values are lists. The module uses four of its operations, through
  \<^verbatim>\<open>super(ItemProperties, self)\<close> or by inheritance:
  \<^item> \<^verbatim>\<open>__getitem__(key)\<close>: the first value of the list stored under \<^verbatim>\<open>key\<close>, a
    \<^verbatim>\<open>KeyError\<close> when there is none;
  \<^item> \<^verbatim>\<open>__setitem__(key, value)\<close>: stores the one-element list \<^verbatim>\<open>[value]\<close>;
  \<^item> \<^verbatim>\<open>getlist(key)\<close>: the whole list stored under \<^verbatim>\<open>key\<close>, the empty list when the
    key is absent;
  \<^item> iteration, over the keys.
\<close>

type_synonym multidict = "(string, pyval list) dict"

definition md_getitem :: "multidict \<Rightarrow> string \<Rightarrow> error + pyval" where
  "md_getitem d key =
     (case map_of d key of
        Some (v # _) \<Rightarrow> Inr v
      | _ \<Rightarrow> Inl (KeyError key))"

definition md_setitem :: "multidict \<Rightarrow> string \<Rightarrow> pyval \<Rightarrow> multidict" where
  "md_setitem d key v = AList.update key [v] d"

definition md_getlist :: "multidict \<Rightarrow> string \<Rightarrow> pyval list" where
  "md_getlist d key = (case map_of d key of Some vs \<Rightarrow> vs | None \<Rightarrow> [])"

section \<open>The data model\<close>

text \<open>
  What the module reads of an \<^verbatim>\<open>AccessPoint\<close>: \<^verbatim>\<open>parser_name\<close> (\<^verbatim>\<open>None\<close> or the
  format identifier), the two alias tables, \<^verbatim>\<open>get_storage_properties()\<close> and
  \<^verbatim>\<open>default_encoding\<close>.
\<close>

record access_point =
  parser_name :: "string option"
  parser_aliases :: "(string, string) dict"
  storage_aliases :: "(string, string) dict"
  get_storage_properties :: "string list"
  default_encoding :: string

text \<open>
  A stream is the data not read yet: \<^verbatim>\<open>read()\<close> returns all of it and leaves nothing. An
  opener is a function without parameters, so calling it gives one fixed outcome: a
  stream, or an exception.
\<close>

datatype stream = Stream string

type_synonym opener = "error + stream"

definition StringIO :: opener where
  "StringIO = Inr (Stream [])"

text \<open>
  A class of items is its \<^verbatim>\<open>format\<close> attribute and its two hooks.
  \<^verbatim>\<open>_custom_parse_data(self)\<close> reads \<^verbatim>\<open>self._stream\<close> and returns a \<^verbatim>\<open>MultiDict\<close> (or
  raises); \<^verbatim>\<open>_custom_serialize(self, properties)\<close> returns the data (or raises) and must
  not modify anything.
\<close>

record item_class =
  format :: "string option"
  custom_parse_data :: "stream option \<Rightarrow> (error + multidict) \<times> stream option"
  custom_serialize :: "(string, pyval) dict \<Rightarrow> error + pyval"

text \<open>
  The fields of \<^verbatim>\<open>ItemProperties\<close>. \<open>mdict\<close> is the content of the \<^verbatim>\<open>MultiDict\<close> the
  object itself is (the parsed-origin values); \<open>loaded\<close> is \<^verbatim>\<open>_loaded\<close>. The
  back-reference \<^verbatim>\<open>_item\<close> is not a field here: every operation takes the item.
\<close>

record item_properties =
  loaded :: bool
  storage_properties :: "(string, pyval) dict"
  storage_properties_old :: "(string, pyval) dict"
  mdict :: multidict
  parser_content_modified :: bool

text \<open>
  The fields of \<^verbatim>\<open>Item\<close>. \<open>parse_calls\<close> is not a field of the source: it counts the
  calls of \<^verbatim>\<open>_custom_parse_data\<close> on this instance, so that statements about the number
  of invocations of the parse hook can be written down.
\<close>

record item =
  cls :: item_class
  opener :: "opener option"
  stream :: "stream option"
  access_point :: access_point
  aliases :: "(string, string) dict"
  aliases_rev :: "(string, nat) dict"
  properties :: item_properties
  parse_calls :: nat

section \<open>The classes \<^verbatim>\<open>Item\<close>, \<^verbatim>\<open>AtomItem\<close> and \<^verbatim>\<open>CapsuleItem\<close>\<close>

text \<open>
  \<^verbatim>\<open>Item\<close>: \<^verbatim>\<open>format = None\<close>, the parse hook returns an empty \<^verbatim>\<open>MultiDict\<close>, the
  serialize hook returns \<^verbatim>\<open>''\<close>.
\<close>

definition Item_cls :: item_class where
  "Item_cls =
     \<lparr> format = None,
       custom_parse_data = (\<lambda>s. (Inr [], s)),
       custom_serialize = (\<lambda>props. Inr (PStr [])) \<rparr>"

text \<open>
  \<^verbatim>\<open>AtomItem\<close>: \<^verbatim>\<open>format = 'binary'\<close>. The parse hook stores
  \<^verbatim>\<open>self._stream.read()\<close> under \<^verbatim>\<open>_content\<close> in the \<^verbatim>\<open>MultiDict\<close> of the base class
  (an \<^verbatim>\<open>AttributeError\<close> when \<^verbatim>\<open>_stream\<close> is still \<^verbatim>\<open>None\<close>); the serialize hook
  returns \<^verbatim>\<open>properties['_content']\<close>.
\<close>

definition AtomItem_cls :: item_class where
  "AtomItem_cls =
     \<lparr> format = Some ''binary'',
       custom_parse_data = (\<lambda>s.
         case s of
           None \<Rightarrow> (Inl AttributeError, None)
         | Some (Stream data) \<Rightarrow> (Inr (md_setitem [] ''_content'' (PStr data)), Some (Stream []))),
       custom_serialize = (\<lambda>props.
         case map_of props ''_content'' of
           None \<Rightarrow> Inl (KeyError ''_content'')
         | Some v \<Rightarrow> Inr v) \<rparr>"

text \<open>\<^verbatim>\<open>CapsuleItem\<close> inherits the attribute and both hooks of \<^verbatim>\<open>Item\<close>.\<close>

definition CapsuleItem_cls :: item_class where
  "CapsuleItem_cls = Item_cls"

section \<open>\<^verbatim>\<open>ItemProperties\<close>: writing\<close>

text \<open>\<^verbatim>\<open>self._item.aliases.get(key, key)\<close>: one step through the alias table.\<close>

definition aliases_get :: "item \<Rightarrow> string \<Rightarrow> string" where
  "aliases_get it key = (case map_of (aliases it) key of Some c \<Rightarrow> c | None \<Rightarrow> key)"

text \<open>
  \<^verbatim>\<open>ItemProperties.__setitem__\<close> (lines 449-457): a storage property is overwritten in
  \<^verbatim>\<open>storage_properties\<close>; any other key goes to the \<^verbatim>\<open>MultiDict\<close> and sets
  \<^verbatim>\<open>parser_content_modified\<close>.
\<close>

definition setitem :: "item \<Rightarrow> string \<Rightarrow> pyval \<Rightarrow> item" where
  "setitem it key0 v =
     (let key = aliases_get it key0; p = properties it in
      if key \<in> set (dict_keys (storage_properties p))
      then it\<lparr>properties := p\<lparr>storage_properties := AList.update key v (storage_properties p)\<rparr>\<rparr>
      else it\<lparr>properties := p\<lparr>mdict := md_setitem (mdict p) key v,
                                 parser_content_modified := True\<rparr>\<rparr>)"

text \<open>\<^verbatim>\<open>Item.content_modified\<close> (lines 247-248).\<close>

definition content_modified :: "item \<Rightarrow> bool" where
  "content_modified it = parser_content_modified (properties it)"

section \<open>Construction\<close>

text \<open>
  \<^verbatim>\<open>ItemProperties.__init__\<close> (lines 366-384). \<^verbatim>\<open>self['_content'] = ''\<close> goes through
  \<^verbatim>\<open>__setitem__\<close> above, after the copy into \<^verbatim>\<open>storage_properties_old\<close> is taken; the
  flag is reset afterwards.
\<close>

definition ItemProperties_init :: "item \<Rightarrow> (string, pyval) dict \<Rightarrow> item" where
  "ItemProperties_init it sp =
     (let p0 = \<lparr> loaded = False, storage_properties = sp, storage_properties_old = sp,
                 mdict = [], parser_content_modified = False \<rparr>;
          it1 = setitem (it\<lparr>properties := p0\<rparr>) ''_content'' (PStr [])
      in it1\<lparr>properties := (properties it1)\<lparr>parser_content_modified := False\<rparr>\<rparr>)"

text \<open>
  \<^verbatim>\<open>Item.__init__\<close> (lines 70-89): the alias table is the parser's, updated with the
  storage's; \<^verbatim>\<open>aliases_rev\<close> numbers its keys.
\<close>

definition Item_init ::
  "item_class \<Rightarrow> access_point \<Rightarrow> opener option \<Rightarrow> (string, pyval) dict \<Rightarrow> item" where
  "Item_init c ap opn sp =
     (let al = dict_update (dict_of (parser_aliases ap)) (storage_aliases ap);
          it0 = \<lparr> cls = c, opener = opn, stream = None, access_point = ap,
                  aliases = al,
                  aliases_rev = dict_of (zip (dict_keys al) [0 ..< length al]),
                  properties = \<lparr> loaded = False, storage_properties = [],
                                 storage_properties_old = [], mdict = [],
                                 parser_content_modified = False \<rparr>,
                  parse_calls = 0 \<rparr>
      in ItemProperties_init it0 sp)"

text \<open>
  \<^verbatim>\<open>Item.get_item_parser\<close> (lines 168-178). \<open>subclasses\<close> is what
  \<^verbatim>\<open>utils.recursive_subclasses(Item)\<close> returns once \<^verbatim>\<open>parser.load()\<close> has run; both live
  outside this module.
\<close>

definition get_item_parser ::
  "item_class list \<Rightarrow> access_point \<Rightarrow> opener option \<Rightarrow> (string, pyval) dict \<Rightarrow> error + item" where
  "get_item_parser subclasses ap opn sp =
     (case parser_name ap of
        None \<Rightarrow> Inr (Item_init Item_cls ap None sp)
      | Some name \<Rightarrow>
          (case find (\<lambda>subclass. format subclass = Some name) subclasses of
             Some subclass \<Rightarrow> Inr (Item_init subclass ap opn sp)
           | None \<Rightarrow> Inl (ParserNotAvailable (''Unknown parser: '' @ name))))"

text \<open>
  The body of the loop of \<^verbatim>\<open>create_item\<close> (lines 135-136):
  \<^verbatim>\<open>item.properties[name] = properties[name]\<close>, for a name the loop takes from
  \<^verbatim>\<open>properties\<close> itself.
\<close>

definition assign :: "(string, pyval) dict \<Rightarrow> string \<Rightarrow> item \<Rightarrow> item" where
  "assign props name it =
     (case map_of props name of Some v \<Rightarrow> setitem it name v | None \<Rightarrow> it)"

text \<open>
  \<^verbatim>\<open>Item.create_item\<close> (lines 114-138). \<^verbatim>\<open>get_item_parser\<close> is called without an
  opener, so with its default \<^verbatim>\<open>StringIO\<close>. The function writes into the dictionary the
  caller passes, so the model returns that dictionary as the call leaves it, next to
  the outcome.
\<close>

definition create_item ::
  "item_class list \<Rightarrow> access_point \<Rightarrow> (string, pyval) dict
     \<Rightarrow> (error + item) \<times> (string, pyval) dict" where
  "create_item subclasses ap props =
     (let sp = dict_of (map (\<lambda>name. (name, PNone)) (get_storage_properties ap)) in
      case get_item_parser subclasses ap (Some StringIO) sp of
        Inl e \<Rightarrow> (Inl e, props)
      | Inr it0 \<Rightarrow>
          (let it1 = it0\<lparr>properties := (properties it0)\<lparr>storage_properties_old := []\<rparr>\<rparr>;
               it2 = it1\<lparr>properties := (properties it1)\<lparr>loaded := True\<rparr>\<rparr>;
               props' = (if ''_content'' \<notin> set (dict_keys props)
                         then AList.update ''_content'' (PStr []) props else props);
               it3 = fold (assign props') (dict_keys props') it2
           in (Inr it3, props')))"

section \<open>Lazy loading\<close>

text \<open>
  \<^verbatim>\<open>Item._open\<close> (lines 244-245): the opener is called when there is no stream yet and
  an opener was given.
\<close>

definition Item_open :: "item \<Rightarrow> (error + unit) \<times> item" where
  "Item_open it =
     (case (stream it, opener it) of
        (None, Some opn) \<Rightarrow>
          (case opn of
             Inl e \<Rightarrow> (Inl e, it)
           | Inr s \<Rightarrow> (Inr (), it\<lparr>stream := Some s\<rparr>))
      | _ \<Rightarrow> (Inr (), it))"

text \<open>\<^verbatim>\<open>ItemProperties.parser_keys\<close> (lines 386-387): the keys of the \<^verbatim>\<open>MultiDict\<close>.\<close>

definition parser_keys :: "item_properties \<Rightarrow> string list" where
  "parser_keys p = dict_keys (mdict p)"

text \<open>
  The loop of \<^verbatim>\<open>update_parser_properties\<close> (lines 423-426), with its condition as it is
  written: \<^verbatim>\<open>if True or key not in pkeys\<close>. \<^verbatim>\<open>properties[key]\<close> is the first value the
  parser gave for the key, and the base class stores it as a one-element list. A
  failing \<^verbatim>\<open>properties[key]\<close> leaves the keys written so far.
\<close>

fun update_loop ::
  "string list \<Rightarrow> multidict \<Rightarrow> string list \<Rightarrow> multidict \<Rightarrow> (error + unit) \<times> multidict" where
  "update_loop pkeys prop [] d = (Inr (), d)"
| "update_loop pkeys prop (key # keys) d =
     (if True \<or> key \<notin> set pkeys
      then (case md_getitem prop key of
              Inl e \<Rightarrow> (Inl e, d)
            | Inr v \<Rightarrow> update_loop pkeys prop keys (md_setitem d key v))
      else update_loop pkeys prop keys d)"

text \<open>
  \<^verbatim>\<open>ItemProperties.update_parser_properties\<close> (lines 417-426). Before the loop,
  \<^verbatim>\<open>_content\<close> is taken off \<^verbatim>\<open>pkeys\<close> when the item is not loaded and its stored
  \<^verbatim>\<open>_content\<close> has length 0; reading it there raises \<^verbatim>\<open>KeyError\<close> when the
  \<^verbatim>\<open>MultiDict\<close> has no \<^verbatim>\<open>_content\<close> and \<^verbatim>\<open>TypeError\<close> when it is \<^verbatim>\<open>None\<close>.
\<close>

definition update_parser_properties :: "item \<Rightarrow> multidict \<Rightarrow> (error + unit) \<times> item" where
  "update_parser_properties it prop =
     (let p = properties it; pkeys = parser_keys p in
      case (if \<not> loaded p
            then (case md_getitem (mdict p) ''_content'' of
                    Inl e \<Rightarrow> Inl e
                  | Inr c \<Rightarrow>
                      (case py_len c of
                         Inl e \<Rightarrow> Inl e
                       | Inr n \<Rightarrow> Inr (if n = 0 then remove1 ''_content'' pkeys else pkeys)))
            else Inr pkeys) of
        Inl e \<Rightarrow> (Inl e, it)
      | Inr pkeys' \<Rightarrow>
          (case update_loop pkeys' prop (dict_keys prop) (mdict p) of
             (r, d) \<Rightarrow> (r, it\<lparr>properties := p\<lparr>mdict := d\<rparr>\<rparr>)))"

text \<open>
  \<^verbatim>\<open>Item._parse_data\<close> (lines 209-214): open, call the parse hook (counted), merge its
  result.
\<close>

definition Item_parse_data :: "item \<Rightarrow> (error + unit) \<times> item" where
  "Item_parse_data it =
     (case Item_open it of
        (Inl e, it1) \<Rightarrow> (Inl e, it1)
      | (Inr u, it1) \<Rightarrow>
          (case custom_parse_data (cls it1) (stream it1) of
             (r, s) \<Rightarrow>
               (let it2 = it1\<lparr>stream := s, parse_calls := Suc (parse_calls it1)\<rparr> in
                case r of
                  Inl e \<Rightarrow> (Inl e, it2)
                | Inr prop \<Rightarrow> update_parser_properties it2 prop)))"

section \<open>\<^verbatim>\<open>ItemProperties\<close>: reading\<close>

text \<open>
  The lazy load of \<^verbatim>\<open>__getitem__\<close> (lines 437-439): \<^verbatim>\<open>_loaded\<close> is set after
  \<^verbatim>\<open>_parse_data\<close> has returned, so an exception in \<^verbatim>\<open>_parse_data\<close> leaves it false.
\<close>

definition lazy_load :: "item \<Rightarrow> (error + unit) \<times> item" where
  "lazy_load it =
     (if \<not> loaded (properties it)
      then (case Item_parse_data it of
              (Inl e, it1) \<Rightarrow> (Inl e, it1)
            | (Inr u, it1) \<Rightarrow> (Inr (), it1\<lparr>properties := (properties it1)\<lparr>loaded := True\<rparr>\<rparr>))
      else (Inr (), it))"

text \<open>
  \<^verbatim>\<open>ItemProperties.__getitem__\<close> (lines 428-444): alias, storage property, lazy load,
  then the first value in the \<^verbatim>\<open>MultiDict\<close>, \<^verbatim>\<open>None\<close> on \<^verbatim>\<open>KeyError\<close>.
\<close>

definition getitem :: "item \<Rightarrow> string \<Rightarrow> (error + pyval) \<times> item" where
  "getitem it key0 =
     (let key = aliases_get it key0 in
      case map_of (storage_properties (properties it)) key of
        Some v \<Rightarrow> (Inr v, it)
      | None \<Rightarrow>
          (case lazy_load it of
             (Inl e, it1) \<Rightarrow> (Inl e, it1)
           | (Inr u, it1) \<Rightarrow>
               (case md_getitem (mdict (properties it1)) key of
                  Inl e \<Rightarrow> (Inr PNone, it1)
                | Inr v \<Rightarrow> (Inr v, it1))))"

text \<open>
  \<^verbatim>\<open>getlist\<close> is not defined in \<^verbatim>\<open>ItemProperties\<close>: \<^verbatim>\<open>prop.getlist('cork_prop')\<close> of
  the class's docstring (line 318) is the method of the base class, which reads the
  \<^verbatim>\<open>MultiDict\<close> and nothing else.
\<close>

definition getlist :: "item \<Rightarrow> string \<Rightarrow> pyval list" where
  "getlist it key = md_getlist (mdict (properties it)) key"

text \<open>
  \<^verbatim>\<open>ItemProperties.keys_without_aliases\<close> (lines 398-401): the keys of the
  \<^verbatim>\<open>MultiDict\<close> and of \<^verbatim>\<open>storage_properties\<close>, as a set.
\<close>

definition keys_without_aliases :: "item_properties \<Rightarrow> string list" where
  "keys_without_aliases p = remdups (dict_keys (mdict p) @ dict_keys (storage_properties p))"

section \<open>Serialization\<close>

text \<open>
  \<^verbatim>\<open>Item.serialize\<close> (lines 191-196). The names are fixed before the first read; every
  name is read with \<^verbatim>\<open>__getitem__\<close>, so the first one that is not a storage property
  loads the item; the hook gets the dictionary of the values read.
\<close>

fun getitems :: "item \<Rightarrow> string list \<Rightarrow> (error + (string, pyval) dict) \<times> item" where
  "getitems it [] = (Inr [], it)"
| "getitems it (name # names) =
     (case getitem it name of
        (Inl e, it1) \<Rightarrow> (Inl e, it1)
      | (Inr v, it1) \<Rightarrow>
          (case getitems it1 names of
             (Inl e, it2) \<Rightarrow> (Inl e, it2)
           | (Inr ps, it2) \<Rightarrow> (Inr ((name, v) # ps), it2)))"

definition serialize :: "item \<Rightarrow> (error + pyval) \<times> item" where
  "serialize it =
     (case getitems it (keys_without_aliases (properties it)) of
        (Inl e, it1) \<Rightarrow> (Inl e, it1)
      | (Inr props, it1) \<Rightarrow> (custom_serialize (cls it1) props, it1))"

text \<open>\<^verbatim>\<open>AtomItem.read\<close> and \<^verbatim>\<open>AtomItem.write\<close> (lines 267-273).\<close>

definition AtomItem_read :: "item \<Rightarrow> (error + pyval) \<times> item" where
  "AtomItem_read it = getitem it ''_content''"

definition AtomItem_write :: "item \<Rightarrow> pyval \<Rightarrow> item" where
  "AtomItem_write it v = setitem it ''_content'' v"

section \<open>Sequences of operations on one item\<close>

text \<open>
  A caller reads, writes and serializes in any order, and may go on after an
  exception: the item is then in the state the failed call left it in.
\<close>

datatype operation = Get string | Put string pyval | Serialize

fun exec_op :: "item \<Rightarrow> operation \<Rightarrow> (error + pyval) \<times> item" where
  "exec_op it (Get name) = getitem it name"
| "exec_op it (Put name v) = (Inr PNone, setitem it name v)"
| "exec_op it Serialize = serialize it"

fun run :: "item \<Rightarrow> operation list \<Rightarrow> (error + pyval) list \<times> item" where
  "run it [] = ([], it)"
| "run it (oper # opers) =
     (case exec_op it oper of
        (r, it1) \<Rightarrow> (case run it1 opers of (rs, it2) \<Rightarrow> (r # rs, it2)))"

definition raised :: "error + pyval \<Rightarrow> bool" where
  "raised r = (case r of Inl e \<Rightarrow> True | Inr v \<Rightarrow> False)"

section \<open>Auxiliary notions for the proofs\<close>

text \<open>
  What \<^verbatim>\<open>__getitem__\<close> returns on an item that is loaded: the storage property, else
  the first value in the \<^verbatim>\<open>MultiDict\<close>, else \<^verbatim>\<open>None\<close>.
\<close>

definition stored :: "item \<Rightarrow> string \<Rightarrow> pyval" where
  "stored it key0 =
     (let key = aliases_get it key0 in
      case map_of (storage_properties (properties it)) key of
        Some v \<Rightarrow> v
      | None \<Rightarrow> (case md_getitem (mdict (properties it)) key of Inl e \<Rightarrow> PNone | Inr v \<Rightarrow> v))"

text \<open>
  The calls of the parse hook made so far, plus the one an item that is not loaded
  still has ahead of it.
\<close>

definition pending :: "item \<Rightarrow> nat" where
  "pending it = parse_calls it + (if loaded (properties it) then 0 else 1)"

text \<open>
  The keys the parse hook gives a value for, on the item as it stands: those of the
  \<^verbatim>\<open>MultiDict\<close> that \<^verbatim>\<open>_custom_parse_data\<close> returns after \<^verbatim>\<open>_open\<close> (none when one
  of the two raises).
\<close>

definition parsed_keys :: "item \<Rightarrow> string list" where
  "parsed_keys it =
     (case Item_open it of
        (Inl e, it1) \<Rightarrow> []
      | (Inr u, it1) \<Rightarrow>
          (case fst (custom_parse_data (cls it1) (stream it1)) of
             Inl e \<Rightarrow> []
           | Inr parsed \<Rightarrow> dict_keys parsed))"

section \<open>Concrete access points and items\<close>

text \<open>An access point of the \<^verbatim>\<open>binary\<close> format, without aliases or storage properties.\<close>

definition ap_binary :: access_point where
  "ap_binary =
     \<lparr> parser_name = Some ''binary'', parser_aliases = [], storage_aliases = [],
       get_storage_properties = [], default_encoding = ''utf-8'' \<rparr>"

text \<open>The classes \<^verbatim>\<open>recursive_subclasses(Item)\<close> finds in this module.\<close>

definition core_subclasses :: "item_class list" where
  "core_subclasses = [AtomItem_cls, CapsuleItem_cls]"

text \<open>An \<^verbatim>\<open>AtomItem\<close> fetched from a storage whose stream holds \<^verbatim>\<open>'disk'\<close>.\<close>

definition atom_disk :: item where
  "atom_disk = Item_init AtomItem_cls ap_binary (Some (Inr (Stream ''disk''))) []"

text \<open>An \<^verbatim>\<open>AtomItem\<close> built without an opener.\<close>

definition atom_unopenable :: item where
  "atom_unopenable = Item_init AtomItem_cls ap_binary None []"

text \<open>
  The scenario of the specification: storage properties \<^verbatim>\<open>a\<close> and \<^verbatim>\<open>b\<close>, the parser
  alias \<^verbatim>\<open>x\<close> for \<^verbatim>\<open>y\<close>, and a parser class whose hook yields \<^verbatim>\<open>y\<close> and, as the
  \<^verbatim>\<open>CorkItem\<close> of the docstring of \<^verbatim>\<open>ItemProperties\<close> does, a value of its own for the
  storage property \<^verbatim>\<open>b\<close>.
\<close>

definition ap_cork :: access_point where
  "ap_cork =
     \<lparr> parser_name = Some ''cork'', parser_aliases = [(''x'', ''y'')], storage_aliases = [],
       get_storage_properties = [''a'', ''b''], default_encoding = ''utf-8'' \<rparr>"

definition Cork_cls :: item_class where
  "Cork_cls =
     \<lparr> format = Some ''cork'',
       custom_parse_data = (\<lambda>s. (Inr [(''y'', [PStr ''parsed-value'']),
                                         (''b'', [PStr ''parsed b''])], s)),
       custom_serialize = (\<lambda>props. Inr (PStr [])) \<rparr>"

definition cork_item :: item where
  "cork_item = Item_init Cork_cls ap_cork (Some StringIO)
                 [(''a'', PStr ''A''), (''b'', PStr ''B'')]"

text \<open>An access point with a chain of aliases.\<close>

definition ap_chain :: access_point where
  "ap_chain = ap_binary\<lparr>parser_aliases := [(''a'', ''c''), (''c'', ''d'')]\<rparr>"

text \<open>An access point that keeps \<^verbatim>\<open>_content\<close> as a storage property.\<close>

definition ap_content_stored :: access_point where
  "ap_content_stored = ap_binary\<lparr>get_storage_properties := [''_content'']\<rparr>"

text \<open>
  An access point with the parser alias \<^verbatim>\<open>title\<close> for \<^verbatim>\<open>name\<close>, and two
  \<^verbatim>\<open>AtomItem\<close>s on it: one fetched from a stream, one built without an opener.
\<close>

definition ap_titled :: access_point where
  "ap_titled = ap_binary\<lparr>parser_aliases := [(''title'', ''name'')]\<rparr>"

definition atom_titled :: item where
  "atom_titled = Item_init AtomItem_cls ap_titled (Some (Inr (Stream ''disk''))) []"

definition atom_titled_unopenable :: item where
  "atom_titled_unopenable = Item_init AtomItem_cls ap_titled None []"

section \<open>Facts about dictionaries\<close>

lemma set_keys_update: "set (dict_keys (AList.update k v d)) = insert k (set (dict_keys d))"
  by (simp add: dict_keys_def dom_update)

lemma map_of_None_keys: "map_of d k = None \<longleftrightarrow> k \<notin> set (dict_keys d)"
  by (simp add: dict_keys_def map_of_eq_None_iff)

lemma map_of_tabulate:
  "map_of (map (\<lambda>n. (n, f n)) names) k = (if k \<in> set names then Some (f k) else None)"
  by (induction names) simp_all

lemma dict_update_Nil: "dict_update d [] = d"
  by (simp add: dict_update_def)

lemma dict_update_Cons:
  "dict_update d (kv # other) = dict_update (AList.update (fst kv) (snd kv) d) other"
  by (simp add: dict_update_def)

text \<open>After \<^verbatim>\<open>d.update(other)\<close> a key has the value \<^verbatim>\<open>other\<close> gave it last, if any.\<close>

lemma map_of_dict_update:
  "map_of (dict_update d other) k =
     (case map_of (rev other) k of Some v \<Rightarrow> Some v | None \<Rightarrow> map_of d k)"
proof (induction other arbitrary: d)
  case Nil
  then show ?case by (simp add: dict_update_Nil)
next
  case (Cons kv other)
  show ?case
    by (cases kv) (simp add: dict_update_Cons Cons.IH update_conv' map_add_def split: option.splits)
qed

lemma keys_dict_update:
  "set (dict_keys (dict_update d other)) = set (dict_keys d) \<union> set (dict_keys other)"
proof (induction other arbitrary: d)
  case Nil
  then show ?case by (simp add: dict_update_Nil dict_keys_def)
next
  case (Cons kv other)
  have "set (dict_keys (kv # other)) = insert (fst kv) (set (dict_keys other))"
    by (simp add: dict_keys_def)
  then show ?case
    by (simp add: dict_update_Cons Cons.IH set_keys_update)
qed

lemma map_of_md_setitem: "map_of (md_setitem d k v) = (map_of d)(k \<mapsto> [v])"
  by (simp add: md_setitem_def update_conv')

section \<open>What a write leaves alone\<close>

lemma setitem_simps [simp]:
  "aliases (setitem it k v) = aliases it"
  "cls (setitem it k v) = cls it"
  "opener (setitem it k v) = opener it"
  "stream (setitem it k v) = stream it"
  "parse_calls (setitem it k v) = parse_calls it"
  "loaded (properties (setitem it k v)) = loaded (properties it)"
  "storage_properties_old (properties (setitem it k v)) = storage_properties_old (properties it)"
  by (simp_all add: setitem_def Let_def)

lemma aliases_get_setitem [simp]: "aliases_get (setitem it k v) n = aliases_get it n"
  by (simp add: aliases_get_def)

lemma storage_keys_setitem [simp]:
  "set (dict_keys (storage_properties (properties (setitem it k v)))) =
   set (dict_keys (storage_properties (properties it)))"
  by (auto simp add: setitem_def Let_def set_keys_update)

lemma Item_init_simps:
  "aliases (Item_init c ap opn sp) = dict_update (dict_of (parser_aliases ap)) (storage_aliases ap)"
  "cls (Item_init c ap opn sp) = c"
  "opener (Item_init c ap opn sp) = opn"
  "stream (Item_init c ap opn sp) = None"
  "parse_calls (Item_init c ap opn sp) = 0"
  "loaded (properties (Item_init c ap opn sp)) = False"
  "parser_content_modified (properties (Item_init c ap opn sp)) = False"
  "storage_properties_old (properties (Item_init c ap opn sp)) = sp"
  "set (dict_keys (storage_properties (properties (Item_init c ap opn sp)))) = set (dict_keys sp)"
  by (simp_all add: Item_init_def ItemProperties_init_def Let_def)

text \<open>The definitions a concrete item is evaluated with.\<close>

lemmas fixture_defs =
  ap_binary_def core_subclasses_def atom_disk_def atom_unopenable_def ap_cork_def Cork_cls_def
  cork_item_def ap_chain_def ap_content_stored_def ap_titled_def atom_titled_def
  atom_titled_unopenable_def AtomItem_cls_def Item_cls_def CapsuleItem_cls_def
  StringIO_def

lemmas construct_defs =
  Item_init_def ItemProperties_init_def get_item_parser_def create_item_def assign_def
  dict_update_def dict_of_def dict_keys_def Let_def

lemmas access_defs =
  setitem_def getitem_def getlist_def lazy_load_def Item_parse_data_def Item_open_def
  update_parser_properties_def parser_keys_def aliases_get_def md_getitem_def md_setitem_def
  md_getlist_def serialize_def keys_without_aliases_def content_modified_def
  AtomItem_write_def AtomItem_read_def raised_def

section \<open>Storage properties and the modification flag\<close>

text \<open>
  C7. For every item, every name and every value: a write under a name that resolves to
  a storage property leaves \<^verbatim>\<open>content_modified()\<close> as it was, and a write under a name
  that resolves to any other key makes it true.
\<close>

theorem setitem_content_modified:
  "(aliases_get it name \<in> set (dict_keys (storage_properties (properties it)))
      \<longrightarrow> content_modified (setitem it name v) = content_modified it) \<and>
   (aliases_get it name \<notin> set (dict_keys (storage_properties (properties it)))
      \<longrightarrow> content_modified (setitem it name v))"
  by (simp add: setitem_def content_modified_def Let_def)

theorem setitem_content_modified_witness:
  "aliases_get cork_item ''a'' \<in> set (dict_keys (storage_properties (properties cork_item))) \<and>
   content_modified (setitem cork_item ''a'' (PStr ''Z'')) = content_modified cork_item \<and>
   aliases_get cork_item ''x'' \<notin> set (dict_keys (storage_properties (properties cork_item))) \<and>
   content_modified (setitem cork_item ''x'' (PStr ''v''))"
  using setitem_content_modified [of cork_item "''a''" "PStr ''Z''"]
    setitem_content_modified [of cork_item "''x''" "PStr ''v''"]
  by (simp add: fixture_defs construct_defs access_defs)

text \<open>
  C9. When the name resolves to a storage property, \<^verbatim>\<open>__getitem__\<close> returns the value
  of the storage property and leaves the item as it is: nothing is loaded, the parse
  hook is not called, the \<^verbatim>\<open>MultiDict\<close> is not read.
\<close>

theorem getitem_storage_first:
  assumes "map_of (storage_properties (properties it)) (aliases_get it name) = Some v"
  shows "getitem it name = (Inr v, it)"
  using assms by (simp add: getitem_def Let_def)

theorem getitem_storage_first_witness:
  "map_of (storage_properties (properties cork_item)) (aliases_get cork_item ''b'') = Some (PStr ''B'') \<and>
   getitem cork_item ''b'' = (Inr (PStr ''B''), cork_item) \<and>
   \<not> loaded (properties cork_item)"
proof -
  have h: "map_of (storage_properties (properties cork_item)) (aliases_get cork_item ''b'')
             = Some (PStr ''B'')"
    by (simp add: fixture_defs construct_defs access_defs)
  have "\<not> loaded (properties cork_item)"
    by (simp add: cork_item_def Item_init_simps)
  with h getitem_storage_first [OF h] show ?thesis by simp
qed

section \<open>Dispatch on the format\<close>

text \<open>
  C6. When the access point names a format that no class found by
  \<^verbatim>\<open>recursive_subclasses(Item)\<close> declares, \<^verbatim>\<open>get_item_parser\<close> raises
  \<^verbatim>\<open>ParserNotAvailable\<close> with the message \<^verbatim>\<open>'Unknown parser: '\<close> followed by that format
  (whether the format is the empty string or not). When the access point names no
  format, it returns an instance of \<^verbatim>\<open>Item\<close> itself, built without an opener: its parse
  hook yields no property and its serialize hook the empty string.
\<close>

theorem get_item_parser_dispatch:
  "(parser_name ap = Some name \<and> (\<forall>subclass \<in> set subclasses. format subclass \<noteq> Some name)
      \<longrightarrow> get_item_parser subclasses ap opn sp
            = Inl (ParserNotAvailable (''Unknown parser: '' @ name))) \<and>
   (parser_name ap = None
      \<longrightarrow> (\<exists>it. get_item_parser subclasses ap opn sp = Inr it \<and>
                it = Item_init Item_cls ap None sp \<and>
                cls it = Item_cls \<and> opener it = None \<and> stream it = None \<and>
                (\<forall>s. custom_parse_data (cls it) s = (Inr [], s)) \<and>
                (\<forall>props. custom_serialize (cls it) props = Inr (PStr []))))"
proof -
  have "find (\<lambda>subclass. format subclass = Some name) subclasses = None"
    if "\<forall>subclass \<in> set subclasses. format subclass \<noteq> Some name"
    using that by (simp add: find_None_iff)
  moreover have "custom_parse_data Item_cls s = (Inr [], s)"
    and "custom_serialize Item_cls props = Inr (PStr [])" for s props
    by (simp_all add: Item_cls_def)
  ultimately show ?thesis
    by (auto simp add: get_item_parser_def Item_init_simps)
qed

theorem get_item_parser_dispatch_witness:
  "parser_name (ap_binary\<lparr>parser_name := Some ''nope''\<rparr>) = Some ''nope'' \<and>
   get_item_parser core_subclasses (ap_binary\<lparr>parser_name := Some ''nope''\<rparr>) (Some StringIO) []
     = Inl (ParserNotAvailable ''Unknown parser: nope'') \<and>
   parser_name (ap_binary\<lparr>parser_name := None\<rparr>) = None \<and>
   get_item_parser core_subclasses (ap_binary\<lparr>parser_name := None\<rparr>) (Some StringIO) []
     = Inr (Item_init Item_cls (ap_binary\<lparr>parser_name := None\<rparr>) None [])"
  using get_item_parser_dispatch
      [of "ap_binary\<lparr>parser_name := Some ''nope''\<rparr>" "''nope''" core_subclasses "Some StringIO" "[]"]
    get_item_parser_dispatch
      [of "ap_binary\<lparr>parser_name := None\<rparr>" "''nope''" core_subclasses "Some StringIO" "[]"]
  by (simp add: ap_binary_def core_subclasses_def AtomItem_cls_def CapsuleItem_cls_def Item_cls_def)

section \<open>A new item and the caller's dictionary\<close>

lemma create_item_unfold:
  assumes "create_item subclasses ap props = (Inr it, props')"
  obtains it0 where
    "get_item_parser subclasses ap (Some StringIO)
       (dict_of (map (\<lambda>name. (name, PNone)) (get_storage_properties ap))) = Inr it0"
    "props' = (if ''_content'' \<notin> set (dict_keys props)
               then AList.update ''_content'' (PStr []) props else props)"
    "it = fold (assign props') (dict_keys props')
            (it0\<lparr>properties := (properties it0)\<lparr>storage_properties_old := [], loaded := True\<rparr>\<rparr>)"
  using assms
  by (auto simp add: create_item_def Let_def split: sum.splits)

text \<open>
  C10. When \<^verbatim>\<open>create_item\<close> returns and the dictionary the caller passed had no
  \<^verbatim>\<open>_content\<close> key, that dictionary is, after the call, the one passed with
  \<^verbatim>\<open>_content\<close> set to the empty string: it has changed.
\<close>

theorem create_item_mutates_properties:
  assumes "create_item subclasses ap props = (Inr it, props')"
      and "''_content'' \<notin> set (dict_keys props)"
  shows "props' = AList.update ''_content'' (PStr []) props \<and>
         map_of props' ''_content'' = Some (PStr []) \<and>
         props' \<noteq> props"
proof -
  from assms have eq: "props' = AList.update ''_content'' (PStr []) props"
    by (auto elim: create_item_unfold)
  then have "map_of props' ''_content'' = Some (PStr [])"
    by (simp add: update_conv')
  moreover from assms(2) have "map_of props ''_content'' = None"
    by (simp add: map_of_None_keys)
  ultimately show ?thesis using eq by auto
qed

theorem create_item_mutates_properties_witness:
  "''_content'' \<notin> set (dict_keys ([] :: (string, pyval) dict)) \<and>
   (\<exists>it. fst (create_item core_subclasses ap_binary []) = Inr it) \<and>
   snd (create_item core_subclasses ap_binary []) = [(''_content'', PStr [])]"
proof -
  have h: "''_content'' \<notin> set (dict_keys ([] :: (string, pyval) dict))"
    by (simp add: dict_keys_def)
  have ex: "\<exists>it. fst (create_item core_subclasses ap_binary []) = Inr it"
    by (simp add: fixture_defs construct_defs)
  then obtain it where
    r: "create_item core_subclasses ap_binary [] = (Inr it, snd (create_item core_subclasses ap_binary []))"
    by (cases "create_item core_subclasses ap_binary []") auto
  from create_item_mutates_properties [OF r h] h ex show ?thesis by simp
qed

section \<open>The merge of the parsed properties\<close>

lemma update_loop_result:
  assumes "update_loop pkeys prop keys d = (Inr (), d')"
  shows "(k \<in> set keys \<longrightarrow> (\<exists>v. md_getitem prop k = Inr v \<and> map_of d' k = Some [v])) \<and>
         (k \<notin> set keys \<longrightarrow> map_of d' k = map_of d k)"
  using assms
proof (induction keys arbitrary: d)
  case Nil
  then show ?case by simp
next
  case (Cons key keys)
  from Cons.prems obtain v where v: "md_getitem prop key = Inr v"
    and rest: "update_loop pkeys prop keys (md_setitem d key v) = (Inr (), d')"
    by (auto split: sum.splits)
  from Cons.IH [OF rest] v show ?case
    by (auto simp add: map_of_md_setitem)
qed

text \<open>
  C4. Whenever \<^verbatim>\<open>update_parser_properties\<close> returns, every key of the parsed
  properties holds in the \<^verbatim>\<open>MultiDict\<close> the value the parser gave (its first one, as a
  one-element list), whatever the \<^verbatim>\<open>MultiDict\<close> held under that key before and whether
  the key is in \<^verbatim>\<open>pkeys\<close> or not: the condition of the loop is always true.
\<close>

theorem update_parser_properties_parser_wins:
  assumes "update_parser_properties it prop = (Inr (), it')"
      and "key \<in> set (dict_keys prop)"
  shows "\<exists>v. md_getitem prop key = Inr v \<and> getlist it' key = [v]"
proof -
  from assms(1) obtain pkeys d where
    loop: "update_loop pkeys prop (dict_keys prop) (mdict (properties it)) = (Inr (), d)"
    and it': "it' = it\<lparr>properties := (properties it)\<lparr>mdict := d\<rparr>\<rparr>"
    by (auto simp add: update_parser_properties_def Let_def split: sum.splits if_splits prod.splits)
  from update_loop_result [OF loop, of key] assms(2)
  obtain v where "md_getitem prop key = Inr v" and "map_of d key = Some [v]"
    by auto
  then show ?thesis
    by (simp add: it' getlist_def md_getlist_def)
qed

theorem update_parser_properties_parser_wins_witness:
  "getlist (AtomItem_write atom_disk (PStr ''user'')) ''_content'' = [PStr ''user''] \<and>
   fst (update_parser_properties (AtomItem_write atom_disk (PStr ''user''))
          [(''_content'', [PStr ''disk''])]) = Inr () \<and>
   getlist (snd (update_parser_properties (AtomItem_write atom_disk (PStr ''user''))
                   [(''_content'', [PStr ''disk''])])) ''_content'' = [PStr ''disk'']"
proof -
  let ?it = "AtomItem_write atom_disk (PStr ''user'')"
  let ?parsed = "[(''_content'', [PStr ''disk''])]"
  have ok: "fst (update_parser_properties ?it ?parsed) = Inr ()"
    by (simp add: fixture_defs construct_defs access_defs)
  then have r: "update_parser_properties ?it ?parsed = (Inr (), snd (update_parser_properties ?it ?parsed))"
    by (cases "update_parser_properties ?it ?parsed") simp
  have k: "''_content'' \<in> set (dict_keys ?parsed)"
    by (simp add: dict_keys_def)
  have before: "getlist ?it ''_content'' = [PStr ''user'']"
    by (simp add: fixture_defs construct_defs access_defs)
  from update_parser_properties_parser_wins [OF r k]
  have "getlist (snd (update_parser_properties ?it ?parsed)) ''_content'' = [PStr ''disk'']"
    by (auto simp add: md_getitem_def)
  with ok before show ?thesis by simp
qed

section \<open>Reading an item that is loaded\<close>

lemma lazy_load_loaded: "loaded (properties it) \<Longrightarrow> lazy_load it = (Inr (), it)"
  by (simp add: lazy_load_def)

lemma getitem_loaded: "loaded (properties it) \<Longrightarrow> getitem it name = (Inr (stored it name), it)"
  by (simp add: getitem_def stored_def Let_def lazy_load_loaded split: option.splits sum.splits)

lemma getitems_loaded:
  "loaded (properties it) \<Longrightarrow> getitems it names = (Inr (map (\<lambda>n. (n, stored it n)) names), it)"
  by (induction names) (simp_all add: getitem_loaded)

lemma serialize_loaded:
  "loaded (properties it) \<Longrightarrow>
   serialize it = (custom_serialize (cls it)
                     (map (\<lambda>n. (n, stored it n)) (keys_without_aliases (properties it))), it)"
  by (simp add: serialize_def getitems_loaded)

lemma exec_op_loaded:
  assumes "loaded (properties it)"
  shows "loaded (properties (snd (exec_op it oper))) \<and>
         parse_calls (snd (exec_op it oper)) = parse_calls it"
  using assms by (cases oper) (simp_all add: getitem_loaded serialize_loaded)

lemma run_loaded:
  assumes "loaded (properties it)"
  shows "loaded (properties (snd (run it opers))) \<and> parse_calls (snd (run it opers)) = parse_calls it"
  using assms
proof (induction opers arbitrary: it)
  case Nil
  then show ?case by simp
next
  case (Cons oper opers)
  from exec_op_loaded [OF Cons.prems, of oper]
  have 1: "loaded (properties (snd (exec_op it oper)))"
    and 2: "parse_calls (snd (exec_op it oper)) = parse_calls it" by simp_all
  from Cons.IH [OF 1] 2 show ?case
    by (cases "exec_op it oper"; cases "run (snd (exec_op it oper)) opers") simp
qed

section \<open>How often the parse hook is called\<close>

lemma Item_open_frame:
  "parse_calls (snd (Item_open it)) = parse_calls it \<and>
   properties (snd (Item_open it)) = properties it \<and> cls (snd (Item_open it)) = cls it"
  by (simp add: Item_open_def split: option.splits sum.splits)

lemma update_parser_properties_frame:
  "parse_calls (snd (update_parser_properties it prop)) = parse_calls it \<and>
   loaded (properties (snd (update_parser_properties it prop))) = loaded (properties it)"
  by (simp add: update_parser_properties_def Let_def split: sum.splits prod.splits)

text \<open>One call of \<^verbatim>\<open>_parse_data\<close> calls the hook at most once and never sets \<^verbatim>\<open>_loaded\<close>.\<close>

lemma Item_parse_data_frame:
  "parse_calls (snd (Item_parse_data it)) \<le> Suc (parse_calls it) \<and>
   loaded (properties (snd (Item_parse_data it))) = loaded (properties it)"
proof (cases "Item_open it")
  case (Pair r it1)
  with Item_open_frame [of it]
  have f: "parse_calls it1 = parse_calls it" "properties it1 = properties it" by simp_all
  show ?thesis
  proof (cases r)
    case (Inl e)
    with Pair f show ?thesis by (simp add: Item_parse_data_def)
  next
    case (Inr u)
    obtain r2 s where h: "custom_parse_data (cls it1) (stream it1) = (r2, s)"
      by (cases "custom_parse_data (cls it1) (stream it1)")
    show ?thesis
    proof (cases r2)
      case (Inl e)
      with Pair Inr h f show ?thesis by (simp add: Item_parse_data_def)
    next
      case (Inr parsed)
      with Pair \<open>r = Inr u\<close> h f
        update_parser_properties_frame
          [of "it1\<lparr>stream := s, parse_calls := Suc (parse_calls it1)\<rparr>" parsed]
      show ?thesis by (simp add: Item_parse_data_def)
    qed
  qed
qed

text \<open>
  A lazy load that returns leaves the item loaded and \<open>pending\<close> no larger; one that
  raises may have called the hook and leaves the item as unloaded as it was.
\<close>

lemma lazy_load_pending:
  "(case fst (lazy_load it) of
      Inl e \<Rightarrow> pending (snd (lazy_load it)) \<le> Suc (pending it)
    | Inr u \<Rightarrow> pending (snd (lazy_load it)) \<le> pending it \<and> loaded (properties (snd (lazy_load it))))"
proof (cases "loaded (properties it)")
  case True
  then show ?thesis by (simp add: lazy_load_loaded)
next
  case False
  obtain r it1 where h: "Item_parse_data it = (r, it1)"
    by (cases "Item_parse_data it")
  with Item_parse_data_frame [of it] False
  have "parse_calls it1 \<le> Suc (parse_calls it)" "\<not> loaded (properties it1)" by simp_all
  with False h show ?thesis
    by (cases r) (simp_all add: lazy_load_def pending_def)
qed

lemma getitem_pending:
  "(case fst (getitem it name) of
      Inl e \<Rightarrow> pending (snd (getitem it name)) \<le> Suc (pending it)
    | Inr v \<Rightarrow> pending (snd (getitem it name)) \<le> pending it)"
proof (cases "map_of (storage_properties (properties it)) (aliases_get it name)")
  case (Some v)
  then show ?thesis by (simp add: getitem_def Let_def)
next
  case None
  obtain r it1 where h: "lazy_load it = (r, it1)" by (cases "lazy_load it")
  with lazy_load_pending [of it] None show ?thesis
    by (cases r) (simp_all add: getitem_def Let_def split: sum.splits)
qed

lemma getitems_pending:
  "(case fst (getitems it names) of
      Inl e \<Rightarrow> pending (snd (getitems it names)) \<le> Suc (pending it)
    | Inr ps \<Rightarrow> pending (snd (getitems it names)) \<le> pending it)"
proof (induction names arbitrary: it)
  case Nil
  then show ?case by simp
next
  case (Cons name names)
  obtain r it1 where h: "getitem it name = (r, it1)" by (cases "getitem it name")
  show ?case
  proof (cases r)
    case (Inl e)
    with h getitem_pending [of it name] show ?thesis by simp
  next
    case (Inr v)
    with h getitem_pending [of it name] have le: "pending it1 \<le> pending it" by simp
    obtain r2 it2 where h2: "getitems it1 names = (r2, it2)" by (cases "getitems it1 names")
    with Cons.IH [of it1] le h Inr show ?thesis
      by (cases r2) simp_all
  qed
qed

lemma serialize_pending:
  "pending (snd (serialize it)) \<le> pending it + (if raised (fst (serialize it)) then 1 else 0)"
proof -
  obtain r it1 where h: "getitems it (keys_without_aliases (properties it)) = (r, it1)"
    by (cases "getitems it (keys_without_aliases (properties it))")
  with getitems_pending [of it "keys_without_aliases (properties it)"] show ?thesis
    by (cases r) (simp_all add: serialize_def raised_def)
qed

lemma exec_op_pending:
  "pending (snd (exec_op it oper)) \<le> pending it + (if raised (fst (exec_op it oper)) then 1 else 0)"
proof (cases oper)
  case (Get name)
  with getitem_pending [of it name] show ?thesis
    by (cases "fst (getitem it name)") (simp_all add: raised_def)
next
  case (Put name v)
  then show ?thesis by (simp add: pending_def)
next
  case Serialize
  with serialize_pending [of it] show ?thesis by simp
qed

lemma run_pending:
  "pending (snd (run it opers)) \<le> pending it + length (filter raised (fst (run it opers)))"
proof (induction opers arbitrary: it)
  case Nil
  then show ?case by simp
next
  case (Cons oper opers)
  obtain r it1 where h: "exec_op it oper = (r, it1)" by (cases "exec_op it oper")
  obtain rs it2 where h2: "run it1 opers = (rs, it2)" by (cases "run it1 opers")
  from exec_op_pending [of it oper] h
  have 1: "pending it1 \<le> pending it + (if raised r then 1 else 0)" by simp
  from Cons.IH [of it1] h2
  have 2: "pending it2 \<le> pending it1 + length (filter raised rs)" by simp
  from 1 2 h h2 show ?case by (cases "raised r") simp_all
qed

text \<open>
  C5, as the code has it. Over any sequence of reads, writes and serializations on an
  item, the parse hook is called at most once more than the number of operations that
  raised: at most once when none raised. From a loaded item on it is never called,
  whatever raises. (As stated the claim fails: a parse attempt that raises leaves
  \<^verbatim>\<open>_loaded\<close> false, and the next read calls the hook again.)
\<close>

theorem parse_hook_calls_bounded:
  assumes "run it opers = (rs, it')"
  shows "parse_calls it' \<le> parse_calls it + 1 + length (filter raised rs) \<and>
         ((\<forall>r \<in> set rs. \<not> raised r) \<longrightarrow> parse_calls it' \<le> parse_calls it + 1) \<and>
         (loaded (properties it) \<longrightarrow> parse_calls it' = parse_calls it)"
proof -
  have "parse_calls it' \<le> pending it'" by (simp add: pending_def)
  also have "\<dots> \<le> pending it + length (filter raised rs)"
    using run_pending [of it opers] assms by simp
  also have "\<dots> \<le> parse_calls it + 1 + length (filter raised rs)"
    by (simp add: pending_def)
  finally have bound: "parse_calls it' \<le> parse_calls it + 1 + length (filter raised rs)" .
  have "filter raised rs = []" if "\<forall>r \<in> set rs. \<not> raised r"
    using that by (simp add: filter_empty_conv)
  with bound have "(\<forall>r \<in> set rs. \<not> raised r) \<longrightarrow> parse_calls it' \<le> parse_calls it + 1"
    by auto
  moreover have "loaded (properties it) \<longrightarrow> parse_calls it' = parse_calls it"
    using run_loaded [of it opers] assms by simp
  ultimately show ?thesis using bound by simp
qed

theorem parse_hook_calls_bounded_witness:
  "fst (run atom_disk [Get ''_content'', Put ''_content'' (PStr ''new''), Get ''x'', Serialize])
     = [Inr (PStr ''disk''), Inr PNone, Inr PNone, Inr (PStr ''new'')] \<and>
   parse_calls atom_disk = 0 \<and>
   parse_calls (snd (run atom_disk
      [Get ''_content'', Put ''_content'' (PStr ''new''), Get ''x'', Serialize])) \<le> 1"
proof -
  let ?ops = "[Get ''_content'', Put ''_content'' (PStr ''new''), Get ''x'', Serialize]"
  have rs: "fst (run atom_disk ?ops) = [Inr (PStr ''disk''), Inr PNone, Inr PNone, Inr (PStr ''new'')]"
    by (simp add: fixture_defs construct_defs access_defs)
  have r: "run atom_disk ?ops = (fst (run atom_disk ?ops), snd (run atom_disk ?ops))"
    by simp
  have z: "parse_calls atom_disk = 0"
    by (simp add: atom_disk_def Item_init_simps)
  from parse_hook_calls_bounded [OF r] rs z show ?thesis
    by (simp add: raised_def)
qed

theorem parse_hook_twice_counterexample:
  "fst (run atom_unopenable [Get ''_content'', Get ''_content''])
     = [Inl AttributeError, Inl AttributeError] \<and>
   parse_calls (snd (run atom_unopenable [Get ''_content'', Get ''_content''])) = 2 \<and>
   fst (run atom_disk [Put ''_content'' PNone, Get ''_content'', Get ''_content''])
     = [Inr PNone, Inl TypeError, Inl TypeError] \<and>
   parse_calls (snd (run atom_disk [Put ''_content'' PNone, Get ''_content'', Get ''_content''])) = 2"
  by (simp add: fixture_defs construct_defs access_defs)

section \<open>A new item\<close>

lemma assign_frame:
  "aliases (assign props name it) = aliases it"
  "cls (assign props name it) = cls it"
  "parse_calls (assign props name it) = parse_calls it"
  "loaded (properties (assign props name it)) = loaded (properties it)"
  "set (dict_keys (storage_properties (properties (assign props name it)))) =
   set (dict_keys (storage_properties (properties it)))"
  "aliases_get (assign props name it) n = aliases_get it n"
  by (simp_all add: assign_def split: option.splits)

lemma assign_modified:
  "content_modified (assign props name it) \<longleftrightarrow>
     content_modified it \<or>
     (name \<in> set (dict_keys props) \<and>
      aliases_get it name \<notin> set (dict_keys (storage_properties (properties it))))"
proof (cases "map_of props name")
  case None
  then have "name \<notin> set (dict_keys props)"
    using map_of_None_keys [of props name] by simp
  with None show ?thesis by (simp add: assign_def)
next
  case (Some v)
  then have "name \<in> set (dict_keys props)"
    using map_of_None_keys [of props name] by simp
  with Some show ?thesis
    by (simp add: assign_def content_modified_def setitem_def Let_def)
qed

text \<open>
  The loop of \<^verbatim>\<open>create_item\<close> changes neither the alias table, nor the class, nor the
  count of parse calls, nor \<^verbatim>\<open>_loaded\<close>, nor the names of the storage properties; the
  flag ends true exactly when it was true or one of the names went past the storage
  properties.
\<close>

lemma fold_assign_frame:
  "aliases (fold (assign props) names it) = aliases it \<and>
   cls (fold (assign props) names it) = cls it \<and>
   parse_calls (fold (assign props) names it) = parse_calls it \<and>
   loaded (properties (fold (assign props) names it)) = loaded (properties it) \<and>
   set (dict_keys (storage_properties (properties (fold (assign props) names it)))) =
     set (dict_keys (storage_properties (properties it))) \<and>
   (content_modified (fold (assign props) names it) \<longleftrightarrow>
      content_modified it \<or>
      (\<exists>name \<in> set names. name \<in> set (dict_keys props) \<and>
         aliases_get it name \<notin> set (dict_keys (storage_properties (properties it)))))"
proof (induction names arbitrary: it)
  case Nil
  then show ?case by simp
next
  case (Cons name names)
  show ?case
    unfolding fold_simps
    by (simp add: Cons.IH [of "assign props name it"] assign_frame assign_modified)
qed

lemma get_item_parser_init:
  assumes "get_item_parser subclasses ap opn sp = Inr it0"
  obtains c opn' where "it0 = Item_init c ap opn' sp"
  using assms
  by (auto simp add: get_item_parser_def split: option.splits)

lemma aliases_get_cong: "aliases it = aliases it' \<Longrightarrow> aliases_get it name = aliases_get it' name"
  by (simp add: aliases_get_def)

text \<open>
  C1, as the code has it. The item \<^verbatim>\<open>create_item\<close> returns is marked loaded and its
  parse hook has not been called, nor is it called by any sequence of reads (or writes,
  or serializations) that follows. Its \<^verbatim>\<open>content_modified()\<close> is true exactly when one
  of the names of the caller's dictionary, \<^verbatim>\<open>_content\<close> included, resolves to a key that
  is not a storage property of the access point: the properties are set through
  \<^verbatim>\<open>__setitem__\<close>, which sets the flag.
\<close>

theorem create_item_loaded_and_modified:
  assumes "create_item subclasses ap props = (Inr it, props')"
  shows "loaded (properties it) \<and> parse_calls it = 0 \<and>
         (\<forall>opers. parse_calls (snd (run it opers)) = 0) \<and>
         (content_modified it \<longleftrightarrow>
            (\<exists>name \<in> set (dict_keys props').
               aliases_get it name \<notin> set (get_storage_properties ap)))"
proof -
  let ?sp = "dict_of (map (\<lambda>name. (name, PNone)) (get_storage_properties ap))"
  from assms obtain it0 where
    p: "get_item_parser subclasses ap (Some StringIO) ?sp = Inr it0"
    and it: "it = fold (assign props') (dict_keys props')
               (it0\<lparr>properties := (properties it0)\<lparr>storage_properties_old := [], loaded := True\<rparr>\<rparr>)"
    by (rule create_item_unfold)
  from p obtain c opn' where it0: "it0 = Item_init c ap opn' ?sp"
    by (rule get_item_parser_init)
  let ?base = "it0\<lparr>properties := (properties it0)\<lparr>storage_properties_old := [], loaded := True\<rparr>\<rparr>"
  have keys_sp: "set (dict_keys ?sp) = set (get_storage_properties ap)"
    by (simp add: dict_of_def keys_dict_update) (simp add: dict_keys_def comp_def)
  have base: "loaded (properties ?base)" "parse_calls ?base = 0" "\<not> content_modified ?base"
    "set (dict_keys (storage_properties (properties ?base))) = set (get_storage_properties ap)"
    using keys_sp by (simp_all add: it0 Item_init_simps content_modified_def)
  note frame = fold_assign_frame [of props' "dict_keys props'" ?base, folded it]
  from frame base have l: "loaded (properties it)" and z: "parse_calls it = 0" by simp_all
  from frame have "aliases it = aliases ?base" by simp
  then have al: "aliases_get ?base name = aliases_get it name" for name
    by (rule aliases_get_cong [symmetric])
  from frame base have
    "content_modified it \<longleftrightarrow>
       (\<exists>name \<in> set (dict_keys props'). aliases_get ?base name \<notin> set (get_storage_properties ap))"
    by simp
  then have m: "content_modified it \<longleftrightarrow>
       (\<exists>name \<in> set (dict_keys props'). aliases_get it name \<notin> set (get_storage_properties ap))"
    by (simp only: al)
  from run_loaded [OF l] z have "\<forall>opers. parse_calls (snd (run it opers)) = 0" by simp
  with l z m show ?thesis by simp
qed

theorem create_item_loaded_and_modified_witness:
  "(\<exists>it. fst (create_item core_subclasses ap_binary []) = Inr it \<and> content_modified it \<and>
         parse_calls (snd (run it [Get ''_content'', Get ''x'', Get ''_content''])) = 0) \<and>
   (\<exists>it. fst (create_item core_subclasses ap_content_stored []) = Inr it \<and> \<not> content_modified it)"
proof -
  have "\<exists>it. fst (create_item core_subclasses ap_binary []) = Inr it"
    by (simp add: fixture_defs construct_defs)
  then obtain it where f: "fst (create_item core_subclasses ap_binary []) = Inr it" ..
  then have r: "create_item core_subclasses ap_binary []
                  = (Inr it, snd (create_item core_subclasses ap_binary []))"
    by (cases "create_item core_subclasses ap_binary []") simp
  have k: "dict_keys (snd (create_item core_subclasses ap_binary [])) = [''_content'']"
    by (simp add: fixture_defs construct_defs)
  note t = create_item_loaded_and_modified [OF r]
  from t have 2: "parse_calls (snd (run it [Get ''_content'', Get ''x'', Get ''_content''])) = 0"
    by blast
  from t have "content_modified it \<longleftrightarrow>
      (\<exists>name \<in> set (dict_keys (snd (create_item core_subclasses ap_binary []))).
         aliases_get it name \<notin> set (get_storage_properties ap_binary))"
    by blast
  with k have 1: "content_modified it"
    by (simp add: ap_binary_def)
  have "\<exists>it. fst (create_item core_subclasses ap_content_stored []) = Inr it"
    by (simp add: fixture_defs construct_defs)
  then obtain it' where f': "fst (create_item core_subclasses ap_content_stored []) = Inr it'" ..
  then have r': "create_item core_subclasses ap_content_stored []
                  = (Inr it', snd (create_item core_subclasses ap_content_stored []))"
    by (cases "create_item core_subclasses ap_content_stored []") simp
  have k': "dict_keys (snd (create_item core_subclasses ap_content_stored [])) = [''_content'']"
    by (simp add: fixture_defs construct_defs)
  have a': "aliases_get it' ''_content'' = ''_content''"
    using f' by (auto simp add: fixture_defs construct_defs access_defs)
  from create_item_loaded_and_modified [OF r']
  have "content_modified it' \<longleftrightarrow>
      (\<exists>name \<in> set (dict_keys (snd (create_item core_subclasses ap_content_stored []))).
         aliases_get it' name \<notin> set (get_storage_properties ap_content_stored))"
    by blast
  with k' a' have 3: "\<not> content_modified it'"
    by (simp add: ap_content_stored_def ap_binary_def)
  from f 1 2 f' 3 show ?thesis by blast
qed

theorem create_item_modified_counterexample:
  "\<exists>it. fst (create_item core_subclasses ap_binary []) = Inr it \<and> content_modified it"
  by (simp add: fixture_defs construct_defs access_defs)

section \<open>Writing, then serializing\<close>

lemma stored_setitem_alias:
  assumes "aliases_get it name = key" and "aliases_get it name' = key"
  shows "stored (setitem it name v) name' = v"
proof -
  from assms have ag: "aliases_get (setitem it name v) name' = key" by simp
  show ?thesis
  proof (cases "key \<in> set (dict_keys (storage_properties (properties it)))")
    case True
    with assms show ?thesis
      unfolding stored_def Let_def ag
      by (simp add: setitem_def Let_def update_conv')
  next
    case False
    then have "map_of (storage_properties (properties it)) key = None"
      by (simp add: map_of_None_keys)
    with False assms show ?thesis
      unfolding stored_def Let_def ag
      by (simp add: setitem_def Let_def md_getitem_def map_of_md_setitem)
  qed
qed

lemma key_after_setitem:
  "aliases_get it name \<in> set (keys_without_aliases (properties (setitem it name v)))"
  by (auto simp add: keys_without_aliases_def setitem_def Let_def md_setitem_def set_keys_update)

text \<open>
  \<^verbatim>\<open>write\<close> never calls the parse hook. On an \<^verbatim>\<open>AtomItem\<close> that is loaded and whose
  alias table leaves \<^verbatim>\<open>_content\<close> alone, \<^verbatim>\<open>write(payload)\<close> followed by
  \<^verbatim>\<open>serialize()\<close> returns the payload.
\<close>

lemma write_then_serialize_loaded:
  "parse_calls (AtomItem_write it v) = parse_calls it \<and>
   (cls it = AtomItem_cls \<and> loaded (properties it) \<and> aliases_get it ''_content'' = ''_content''
      \<longrightarrow> serialize (AtomItem_write it v) = (Inr v, AtomItem_write it v) \<and>
          parse_calls (snd (serialize (AtomItem_write it v))) = parse_calls it)"
proof -
  have "serialize (setitem it ''_content'' v) = (Inr v, setitem it ''_content'' v)"
    if c: "cls it = AtomItem_cls" and l: "loaded (properties it)"
      and a: "aliases_get it ''_content'' = ''_content''"
  proof -
    let ?it = "setitem it ''_content'' v"
    from key_after_setitem [of it "''_content''" v] a
    have k: "''_content'' \<in> set (keys_without_aliases (properties ?it))" by simp
    have s: "stored ?it ''_content'' = v" using a a by (rule stored_setitem_alias)
    from l have "serialize ?it =
      (custom_serialize (cls ?it)
         (map (\<lambda>n. (n, stored ?it n)) (keys_without_aliases (properties ?it))), ?it)"
      by (simp add: serialize_loaded)
    with c k s show ?thesis
      by (simp add: AtomItem_cls_def map_of_tabulate)
  qed
  then show ?thesis
    by (simp add: AtomItem_write_def)
qed

text \<open>
  C2. The round trip is lost on an \<^verbatim>\<open>AtomItem\<close> fetched from a storage and not read
  yet. After \<^verbatim>\<open>write('new')\<close> the parse hook has not been called, the \<^verbatim>\<open>MultiDict\<close>
  holds the payload and \<^verbatim>\<open>_content\<close> is among the parser keys. \<^verbatim>\<open>serialize()\<close> reads
  \<^verbatim>\<open>_content\<close> through \<^verbatim>\<open>__getitem__\<close>, which loads the item first, and the merge
  (lines 425-426) replaces the payload by the content of the stream, although the
  comment of line 424 keeps the assignment for the properties the user has not set:
  \<^verbatim>\<open>serialize()\<close> returns \<^verbatim>\<open>'disk'\<close>.
\<close>

theorem write_then_serialize_loses_payload:
  "parse_calls (AtomItem_write atom_disk (PStr ''new'')) = 0 \<and>
   getlist (AtomItem_write atom_disk (PStr ''new'')) ''_content'' = [PStr ''new''] \<and>
   parser_keys (properties (AtomItem_write atom_disk (PStr ''new''))) = [''_content''] \<and>
   fst (serialize (AtomItem_write atom_disk (PStr ''new''))) = Inr (PStr ''disk'') \<and>
   parse_calls (snd (serialize (AtomItem_write atom_disk (PStr ''new'')))) = 1"
  by (simp add: fixture_defs construct_defs access_defs)

section \<open>\<^verbatim>\<open>getlist\<close> and \<^verbatim>\<open>__getitem__\<close>\<close>

text \<open>
  C3, as the code has it. \<^verbatim>\<open>getlist\<close> is the method of the base class: it returns the
  list the \<^verbatim>\<open>MultiDict\<close> holds under the name as given, the empty list when the
  \<^verbatim>\<open>MultiDict\<close> has no such key; it resolves no alias, looks at no storage property
  and loads nothing. For a name that the alias table leaves alone and that is not a
  storage property, the first element of \<^verbatim>\<open>getlist(key)\<close> is what \<^verbatim>\<open>__getitem__(key)\<close>
  returns when the item is loaded, and what it has just returned otherwise.
\<close>

theorem getlist_head_is_getitem:
  "(key \<notin> set (parser_keys (properties it)) \<longrightarrow> getlist it key = []) \<and>
   (aliases_get it key = key \<and>
    key \<notin> set (dict_keys (storage_properties (properties it))) \<longrightarrow>
      (loaded (properties it) \<and> getlist it key = v # vs \<longrightarrow> getitem it key = (Inr v, it)) \<and>
      (getitem it key = (Inr x, it1) \<and> getlist it1 key = v # vs \<longrightarrow> x = v))"
proof -
  have absent: "getlist it key = []" if "key \<notin> set (parser_keys (properties it))"
    using that by (simp add: getlist_def md_getlist_def parser_keys_def map_of_None_keys [symmetric])
  have first: "md_getitem (mdict (properties j)) key = Inr v" if "getlist j key = v # vs" for j
    using that by (simp add: getlist_def md_getlist_def md_getitem_def split: option.splits)
  have after: "y = v"
    if a: "aliases_get it key = key"
      and s: "key \<notin> set (dict_keys (storage_properties (properties it)))"
      and g: "getitem it key = (Inr y, i)" and l: "getlist i key = v # vs" for y i
  proof -
    from s have n: "map_of (storage_properties (properties it)) key = None"
      by (simp add: map_of_None_keys)
    obtain r j where ll: "lazy_load it = (r, j)" by (cases "lazy_load it")
    from g a n ll have "j = i" and "y = (case md_getitem (mdict (properties i)) key of
                                           Inl e \<Rightarrow> PNone | Inr w \<Rightarrow> w)"
      by (auto simp add: getitem_def Let_def split: sum.splits)
    with first [OF l] show ?thesis by simp
  qed
  have loaded_case: "getitem it key = (Inr v, it)"
    if a: "aliases_get it key = key"
      and s: "key \<notin> set (dict_keys (storage_properties (properties it)))"
      and l: "loaded (properties it)" and g: "getlist it key = v # vs"
  proof -
    from l have e: "getitem it key = (Inr (stored it key), it)" by (rule getitem_loaded)
    from after [OF a s e g] e show ?thesis by simp
  qed
  from absent after loaded_case show ?thesis by blast
qed

theorem getlist_head_is_getitem_witness:
  "''nothing'' \<notin> set (parser_keys (properties cork_item)) \<and>
   getlist cork_item ''nothing'' = [] \<and>
   loaded (properties (snd (getitem cork_item ''y''))) \<and>
   aliases_get (snd (getitem cork_item ''y'')) ''y'' = ''y'' \<and>
   ''y'' \<notin> set (dict_keys (storage_properties (properties (snd (getitem cork_item ''y''))))) \<and>
   getlist (snd (getitem cork_item ''y'')) ''y'' = [PStr ''parsed-value''] \<and>
   getitem (snd (getitem cork_item ''y'')) ''y''
     = (Inr (PStr ''parsed-value''), snd (getitem cork_item ''y''))"
proof -
  let ?it = "snd (getitem cork_item ''y'')"
  have a: "''nothing'' \<notin> set (parser_keys (properties cork_item))"
    by (simp add: fixture_defs construct_defs access_defs)
  have h: "loaded (properties ?it)" "aliases_get ?it ''y'' = ''y''"
    "''y'' \<notin> set (dict_keys (storage_properties (properties ?it)))"
    "getlist ?it ''y'' = [PStr ''parsed-value'']"
    by (simp_all add: fixture_defs construct_defs access_defs)
  from getlist_head_is_getitem [of "''nothing''" cork_item] a
  have 1: "getlist cork_item ''nothing'' = []" by blast
  from getlist_head_is_getitem [of "''y''" ?it "PStr ''parsed-value''" "[]"] h
  have 2: "getitem ?it ''y'' = (Inr (PStr ''parsed-value''), ?it)" by blast
  from a 1 h 2 show ?thesis by blast
qed

theorem getlist_head_counterexample:
  "getlist atom_disk ''_content'' = [PStr []] \<and>
   fst (getitem atom_disk ''_content'') = Inr (PStr ''disk'') \<and>
   getlist (snd (getitem cork_item ''y'')) ''b'' = [PStr ''parsed b''] \<and>
   fst (getitem (snd (getitem cork_item ''y'')) ''b'') = Inr (PStr ''B'') \<and>
   getlist (snd (getitem cork_item ''y'')) ''x'' = [] \<and>
   fst (getitem (snd (getitem cork_item ''y'')) ''x'') = Inr (PStr ''parsed-value'')"
  by (simp add: fixture_defs construct_defs access_defs)

section \<open>Aliases\<close>

lemma getitem_storage:
  "map_of (storage_properties (properties it)) (aliases_get it name) = Some v \<Longrightarrow>
   getitem it name = (Inr v, it)"
  by (simp add: getitem_def Let_def)

lemma getitem_after_setitem:
  assumes k: "aliases_get it name = key" and k': "aliases_get it name' = key"
    and l: "loaded (properties it) \<or> key \<in> set (dict_keys (storage_properties (properties it)))"
  shows "getitem (setitem it name v) name' = (Inr v, setitem it name v)"
proof (cases "loaded (properties it)")
  case True
  then have "loaded (properties (setitem it name v))" by simp
  then show ?thesis
    by (simp add: getitem_loaded stored_setitem_alias [OF k k'])
next
  case False
  with l have s: "key \<in> set (dict_keys (storage_properties (properties it)))" by simp
  from k' have ag: "aliases_get (setitem it name v) name' = key" by simp
  from k s have "map_of (storage_properties (properties (setitem it name v))) key = Some v"
    by (simp add: setitem_def Let_def update_conv')
  with ag have "map_of (storage_properties (properties (setitem it name v)))
                  (aliases_get (setitem it name v) name') = Some v"
    by simp
  then show ?thesis by (rule getitem_storage)
qed

lemma parsed_keys_setitem: "parsed_keys (setitem it name v) = parsed_keys it"
  by (simp add: parsed_keys_def Item_open_def split: option.splits sum.splits)

lemma Item_open_keeps:
  "aliases (snd (Item_open it)) = aliases it \<and> properties (snd (Item_open it)) = properties it"
  by (simp add: Item_open_def split: option.splits sum.splits)

lemma update_parser_properties_keeps:
  "aliases (snd (update_parser_properties it parsed)) = aliases it \<and>
   storage_properties (properties (snd (update_parser_properties it parsed)))
     = storage_properties (properties it)"
  by (simp add: update_parser_properties_def Let_def split: sum.splits prod.splits)

text \<open>
  A lazy load that returns on an item that was not loaded leaves it loaded, with its
  alias table and storage properties as they were, and with the \<^verbatim>\<open>MultiDict\<close> as it
  was under every key the parser gave no value for.
\<close>

lemma lazy_load_returns:
  assumes ll: "lazy_load it = (Inr u, it2)" and nl: "\<not> loaded (properties it)"
  shows "loaded (properties it2) \<and> aliases it2 = aliases it \<and>
         storage_properties (properties it2) = storage_properties (properties it) \<and>
         (k \<notin> set (parsed_keys it) \<longrightarrow>
            map_of (mdict (properties it2)) k = map_of (mdict (properties it)) k)"
proof -
  obtain r1 it1 where o: "Item_open it = (r1, it1)" by (cases "Item_open it")
  obtain r2 s where h: "custom_parse_data (cls it1) (stream it1) = (r2, s)"
    by (cases "custom_parse_data (cls it1) (stream it1)")
  let ?it' = "it1\<lparr>stream := s, parse_calls := Suc (parse_calls it1)\<rparr>"
  from ll nl o h obtain u1 parsed it3 where r1: "r1 = Inr u1" and r2: "r2 = Inr parsed"
    and up: "update_parser_properties ?it' parsed = (Inr (), it3)"
    and it2: "it2 = it3\<lparr>properties := (properties it3)\<lparr>loaded := True\<rparr>\<rparr>"
    by (auto simp add: lazy_load_def Item_parse_data_def Let_def split: sum.splits prod.splits)
  from Item_open_keeps [of it] o
  have k1: "aliases it1 = aliases it" "properties it1 = properties it" by simp_all
  from update_parser_properties_keeps [of ?it' parsed] up k1
  have k3: "aliases it3 = aliases it"
    "storage_properties (properties it3) = storage_properties (properties it)" by simp_all
  from up obtain pkeys d where
    loop: "update_loop pkeys parsed (dict_keys parsed) (mdict (properties ?it')) = (Inr (), d)"
    and it3: "it3 = ?it'\<lparr>properties := (properties ?it')\<lparr>mdict := d\<rparr>\<rparr>"
    by (auto simp add: update_parser_properties_def Let_def split: sum.splits if_splits prod.splits)
  from o h r1 r2 have pk: "parsed_keys it = dict_keys parsed"
    by (simp add: parsed_keys_def)
  from update_loop_result [OF loop, of k] k1
  have "k \<notin> set (dict_keys parsed) \<longrightarrow> map_of d k = map_of (mdict (properties it)) k"
    by simp
  with pk it3 it2 k3 show ?thesis by simp
qed

lemma getitem_after_setitem_returns:
  assumes a: "aliases_get it name = key"
    and p: "key \<notin> set (parsed_keys it)"
    and g: "getitem (setitem it name v) name = (Inr x, it2)"
  shows "x = v \<and> (aliases_get it key = key \<longrightarrow> getitem it2 key = (Inr v, it2))"
proof (cases "loaded (properties it) \<or> key \<in> set (dict_keys (storage_properties (properties it)))")
  case True
  from getitem_after_setitem [OF a a True, of v] g
  have e: "x = v" "it2 = setitem it name v" by simp_all
  have "getitem it2 key = (Inr v, it2)" if c: "aliases_get it key = key"
    using getitem_after_setitem [OF a c True, of v] e by simp
  with e show ?thesis by simp
next
  case False
  let ?it1 = "setitem it name v"
  from False have nl: "\<not> loaded (properties ?it1)"
    and ns: "key \<notin> set (dict_keys (storage_properties (properties it)))" by simp_all
  from ns have st: "map_of (storage_properties (properties ?it1)) key = None"
    using storage_keys_setitem [of it name v] by (simp add: map_of_None_keys)
  from a have ag: "aliases_get ?it1 name = key" by simp
  from a ns have m1: "map_of (mdict (properties ?it1)) key = Some [v]"
    by (simp add: setitem_def Let_def map_of_md_setitem)
  obtain r j where ll: "lazy_load ?it1 = (r, j)" by (cases "lazy_load ?it1")
  from g ag st ll obtain u where r: "r = Inr u" and j: "j = it2"
    and x: "x = (case md_getitem (mdict (properties it2)) key of Inl e \<Rightarrow> PNone | Inr w \<Rightarrow> w)"
    by (auto simp add: getitem_def Let_def split: sum.splits)
  from p have p1: "key \<notin> set (parsed_keys ?it1)" by (simp add: parsed_keys_setitem)
  from lazy_load_returns [OF ll [unfolded r j] nl, of key] p1 m1 st
  have l2: "loaded (properties it2)" and al: "aliases it2 = aliases it"
    and s2: "map_of (storage_properties (properties it2)) key = None"
    and m2: "map_of (mdict (properties it2)) key = Some [v]"
    by simp_all
  from m2 have md: "md_getitem (mdict (properties it2)) key = Inr v"
    by (simp add: md_getitem_def)
  with x have xv: "x = v" by simp
  have "getitem it2 key = (Inr v, it2)" if c: "aliases_get it key = key"
  proof -
    from al c have "aliases_get it2 key = key" by (simp add: aliases_get_def)
    with s2 md have "stored it2 key = v" by (simp add: stored_def Let_def)
    with l2 show ?thesis by (simp add: getitem_loaded)
  qed
  with xv show ?thesis by simp
qed

text \<open>
  C8, as the code has it. The alias table of an item is the parser table updated with
  the storage table: a name has the target the storage table gives it, else the one
  the parser table gives it. For an alias \<open>a\<close> of \<open>c\<close> in that table, after a write
  under \<open>a\<close>:
  \<^item> a read under \<open>a\<close> returns the value written when the item is loaded or \<open>c\<close> is
    a storage property;
  \<^item> on any item, when the parse hook gives no value for \<open>c\<close>, a read under \<open>a\<close>
    that returns at all returns the value written (the read raises when the lazy load
    it starts raises);
  \<^item> in both cases a read under \<open>c\<close> after it returns the value written too,
    provided \<open>c\<close> is not itself an alias of another name: a read resolves one step
    only.
  Nothing is said here of an item that is not loaded and whose parser gives a value
  for \<open>c\<close>: that case is decided by the condition of line 425 (see C2).
\<close>

theorem alias_write_read:
  "(map_of (aliases it) a = Some c \<and>
    (loaded (properties it) \<or> c \<in> set (dict_keys (storage_properties (properties it))))
      \<longrightarrow> getitem (setitem it a v) a = (Inr v, setitem it a v) \<and>
          (aliases_get it c = c \<longrightarrow> getitem (setitem it a v) c = (Inr v, setitem it a v))) \<and>
   (map_of (aliases it) a = Some c \<and> c \<notin> set (parsed_keys it) \<and>
    getitem (setitem it a v) a = (Inr x, it2)
      \<longrightarrow> x = v \<and> (aliases_get it c = c \<longrightarrow> getitem it2 c = (Inr v, it2))) \<and>
   map_of (aliases (Item_init cl ap opn sp)) n =
     (case map_of (rev (storage_aliases ap)) n of
        Some t \<Rightarrow> Some t
      | None \<Rightarrow> map_of (rev (parser_aliases ap)) n)"
proof -
  have 1: "getitem (setitem it a v) a = (Inr v, setitem it a v) \<and>
        (aliases_get it c = c \<longrightarrow> getitem (setitem it a v) c = (Inr v, setitem it a v))"
    if m: "map_of (aliases it) a = Some c"
      and l: "loaded (properties it) \<or> c \<in> set (dict_keys (storage_properties (properties it)))"
  proof -
    from m have a: "aliases_get it a = c" by (simp add: aliases_get_def)
    from getitem_after_setitem [OF a a l] getitem_after_setitem [OF a _ l]
    show ?thesis by simp
  qed
  have 2: "x = v \<and> (aliases_get it c = c \<longrightarrow> getitem it2 c = (Inr v, it2))"
    if m: "map_of (aliases it) a = Some c" and p: "c \<notin> set (parsed_keys it)"
      and g: "getitem (setitem it a v) a = (Inr x, it2)"
  proof -
    from m have a: "aliases_get it a = c" by (simp add: aliases_get_def)
    from a p g show ?thesis by (rule getitem_after_setitem_returns)
  qed
  have 3: "map_of (aliases (Item_init cl ap opn sp)) n =
     (case map_of (rev (storage_aliases ap)) n of
        Some t \<Rightarrow> Some t
      | None \<Rightarrow> map_of (rev (parser_aliases ap)) n)"
    by (simp add: Item_init_simps dict_of_def map_of_dict_update split: option.splits)
  from 1 2 3 show ?thesis by blast
qed

theorem alias_write_read_witness:
  "map_of (aliases (snd (getitem cork_item ''y''))) ''x'' = Some ''y'' \<and>
   aliases_get (snd (getitem cork_item ''y'')) ''y'' = ''y'' \<and>
   loaded (properties (snd (getitem cork_item ''y''))) \<and>
   fst (getitem (setitem (snd (getitem cork_item ''y'')) ''x'' (PStr ''v'')) ''x'') = Inr (PStr ''v'') \<and>
   fst (getitem (setitem (snd (getitem cork_item ''y'')) ''x'' (PStr ''v'')) ''y'') = Inr (PStr ''v'') \<and>
   map_of (aliases atom_titled) ''title'' = Some ''name'' \<and>
   \<not> loaded (properties atom_titled) \<and>
   ''name'' \<notin> set (parsed_keys atom_titled) \<and>
   aliases_get atom_titled ''name'' = ''name'' \<and>
   fst (getitem (setitem atom_titled ''title'' (PStr ''v'')) ''title'') = Inr (PStr ''v'') \<and>
   fst (getitem (snd (getitem (setitem atom_titled ''title'' (PStr ''v'')) ''title'')) ''name'')
     = Inr (PStr ''v'')"
proof -
  let ?it = "snd (getitem cork_item ''y'')"
  have h: "map_of (aliases ?it) ''x'' = Some ''y''" "aliases_get ?it ''y'' = ''y''"
    "loaded (properties ?it)"
    by (simp_all add: fixture_defs construct_defs access_defs)
  from alias_write_read [of ?it "''x''" "''y''" "PStr ''v''"] h
  have 1: "getitem (setitem ?it ''x'' (PStr ''v'')) ''x'' = (Inr (PStr ''v''), setitem ?it ''x'' (PStr ''v''))"
    and 2: "getitem (setitem ?it ''x'' (PStr ''v'')) ''y'' = (Inr (PStr ''v''), setitem ?it ''x'' (PStr ''v''))"
    by blast+
  let ?w = "setitem atom_titled ''title'' (PStr ''v'')"
  have k: "map_of (aliases atom_titled) ''title'' = Some ''name''"
    "\<not> loaded (properties atom_titled)"
    "''name'' \<notin> set (parsed_keys atom_titled)"
    "aliases_get atom_titled ''name'' = ''name''"
    by (simp_all add: fixture_defs construct_defs access_defs parsed_keys_def)
  have "\<exists>x. fst (getitem ?w ''title'') = Inr x"
    by (simp add: fixture_defs construct_defs access_defs)
  then obtain x where fx: "fst (getitem ?w ''title'') = Inr x" ..
  then have g: "getitem ?w ''title'' = (Inr x, snd (getitem ?w ''title''))"
    by (cases "getitem ?w ''title''") simp
  from alias_write_read [of atom_titled "''title''" "''name''" "PStr ''v''" x "snd (getitem ?w ''title'')"]
    k g
  have 3: "x = PStr ''v''"
    and 4: "getitem (snd (getitem ?w ''title'')) ''name'' = (Inr (PStr ''v''), snd (getitem ?w ''title''))"
    by blast+
  from 3 fx have 5: "fst (getitem ?w ''title'') = Inr (PStr ''v'')" by simp
  from h 1 2 k 5 4 show ?thesis by simp
qed

theorem alias_write_read_counterexample:
  "(\<exists>it. fst (create_item core_subclasses ap_chain []) = Inr it \<and>
         map_of (aliases it) ''a'' = Some ''c'' \<and>
         fst (getitem (setitem it ''a'' (PStr ''v'')) ''a'') = Inr (PStr ''v'') \<and>
         fst (getitem (setitem it ''a'' (PStr ''v'')) ''c'') = Inr PNone) \<and>
   map_of (aliases atom_titled_unopenable) ''title'' = Some ''name'' \<and>
   fst (getitem (setitem atom_titled_unopenable ''title'' (PStr ''v'')) ''title'')
     = Inl AttributeError"
  by (simp add: fixture_defs construct_defs access_defs)

end
